theory Spec2Isabelle
  imports Main "HOL-Library.Multiset"
begin

section \<open>Step states and step results (lib/Sema/CSStep.h)\<close>

text \<open>
  \<^verbatim>\<open>enum class StepState { Setup, Ready, Running, Suspended, Done };\<close>
\<close>

datatype StepState = Setup | Ready | Running | Suspended | Done

text \<open>
  \<^verbatim>\<open>using Kind = ConstraintSystem::SolutionKind;\<close> The enumeration is declared in
  ConstraintSystem.h; the header uses its three values \<^verbatim>\<open>Solved\<close>, \<^verbatim>\<open>Error\<close>
  and \<^verbatim>\<open>Unsolved\<close>.
\<close>

datatype Kind = Solved | Error | Unsolved

text \<open>A \<^verbatim>\<open>SolverStep *\<close> is an address in the solver's arena.\<close>

type_synonym step_ptr = nat

record StepResult =
  ResultKind :: Kind
  NextSteps :: "step_ptr list"

text \<open>The three private constructors of \<^verbatim>\<open>StepResult\<close>.\<close>

definition StepResult_kind :: "Kind \<Rightarrow> StepResult" where
  "StepResult_kind kind = \<lparr>ResultKind = kind, NextSteps = []\<rparr>"

definition StepResult_step :: "Kind \<Rightarrow> step_ptr \<Rightarrow> StepResult" where
  "StepResult_step kind step = \<lparr>ResultKind = kind, NextSteps = [] @ [step]\<rparr>"

definition StepResult_followup :: "Kind \<Rightarrow> step_ptr list \<Rightarrow> StepResult" where
  "StepResult_followup kind followup = \<lparr>ResultKind = kind, NextSteps = followup\<rparr>"

definition getKind :: "StepResult \<Rightarrow> Kind" where
  "getKind r = ResultKind r"

text \<open>
  \<^verbatim>\<open>transfer\<close>: \<^verbatim>\<open>workList.append(NextSteps.begin(), NextSteps.end())\<close>. The work list
  is a vector; \<^verbatim>\<open>append\<close> adds the elements at its back, in iteration order.
\<close>

definition transfer :: "StepResult \<Rightarrow> step_ptr list \<Rightarrow> step_ptr list" where
  "transfer r workList = workList @ NextSteps r"

text \<open>The private factories, usable by \<^verbatim>\<open>SolverStep\<close> only.\<close>

definition success :: StepResult where
  "success = StepResult_kind Solved"

definition failure :: StepResult where
  "failure = StepResult_kind Error"

definition unsolved_step :: "step_ptr \<Rightarrow> StepResult" where
  "unsolved_step singleStep = StepResult_step Unsolved singleStep"

definition unsolved_steps :: "step_ptr list \<Rightarrow> StepResult" where
  "unsolved_steps followup = StepResult_followup Unsolved followup"

text \<open>Every way in which the factories can be called.\<close>

datatype factory_call =
    CallSuccess
  | CallFailure
  | CallUnsolvedStep step_ptr
  | CallUnsolvedSteps "step_ptr list"

fun construct :: "factory_call \<Rightarrow> StepResult" where
  "construct CallSuccess = success"
| "construct CallFailure = failure"
| "construct (CallUnsolvedStep s) = unsolved_step s"
| "construct (CallUnsolvedSteps fs) = unsolved_steps fs"

subsection \<open>The base class \<^verbatim>\<open>SolverStep\<close>\<close>

text \<open>
  The base class holds the state of the step (initially \<^verbatim>\<open>Setup\<close>); the references
  to the constraint system and to the solution buffer are passed explicitly where a
  member function uses them. Derived classes extend the record.
\<close>

record SolverStep =
  State :: StepState

definition SolverStep_init :: SolverStep where
  "SolverStep_init = \<lparr>State = Setup\<rparr>"

definition getState :: "'a SolverStep_scheme \<Rightarrow> StepState" where
  "getState st = State st"

text \<open>
  \<^verbatim>\<open>void transitionTo(StepState newState) { /* TODO: ... */ State = newState; }\<close>
  The body is the assignment alone: there is no check and no failing branch.
\<close>

definition transitionTo :: "StepState \<Rightarrow> 'a SolverStep_scheme \<Rightarrow> 'a SolverStep_scheme" where
  "transitionTo newState st = st\<lparr>State := newState\<rparr>"

definition setup_step :: "'a SolverStep_scheme \<Rightarrow> 'a SolverStep_scheme" where
  "setup_step st = transitionTo Ready st"

definition done_step :: "bool \<Rightarrow> 'a SolverStep_scheme \<Rightarrow> 'a SolverStep_scheme \<times> StepResult" where
  "done_step isSuccess st =
     (let st' = transitionTo Done st
      in (st', if isSuccess then success else failure))"

definition suspend_step :: "step_ptr \<Rightarrow> 'a SolverStep_scheme \<Rightarrow> 'a SolverStep_scheme \<times> StepResult" where
  "suspend_step followup st =
     (let st' = transitionTo Suspended st
      in (st', unsolved_step followup))"

definition suspend_steps :: "step_ptr list \<Rightarrow> 'a SolverStep_scheme \<Rightarrow> 'a SolverStep_scheme \<times> StepResult" where
  "suspend_steps followup st =
     (let st' = transitionTo Suspended st
      in (st', unsolved_steps followup))"

text \<open>
  Modelled from the spec: the transition path of a step, which the header only names in
  a comment: \<^verbatim>\<open>Setup -> Ready -> Running -> (Suspended -> Running)* -> Done\<close>.
  \<open>onPath a b\<close> holds when the path allows a step in state \<open>a\<close> to move to \<open>b\<close>.
\<close>

definition onPath :: "StepState \<Rightarrow> StepState \<Rightarrow> bool" where
  "onPath a b =
     ((a, b) \<in> {(Setup, Ready), (Ready, Running), (Running, Suspended),
                 (Suspended, Running), (Running, Done)})"

subsection \<open>The work list\<close>

text \<open>
  Modelled from the spec: the driver's work loop, which is not part of this header. The
  driver holds a LIFO work list and pops its top step. The work list is the vector that
  \<^verbatim>\<open>transfer\<close> appends to, so the top of the stack is the back of the vector.
  \<open>workList_pop\<close> is one pop; \<open>popOrder\<close> is the order in which the steps of a work
  list are popped when no step is pushed in between.
\<close>

definition workList_pop :: "step_ptr list \<Rightarrow> (step_ptr \<times> step_ptr list) option" where
  "workList_pop workList =
     (if workList = [] then None else Some (last workList, butlast workList))"

function popOrder :: "step_ptr list \<Rightarrow> step_ptr list" where
  "popOrder workList =
     (case workList_pop workList of
        None \<Rightarrow> []
      | Some (step, rest) \<Rightarrow> step # popOrder rest)"
  by pat_completeness auto
termination
  by (relation "measure length") (auto simp: workList_pop_def split: if_splits)

declare popOrder.simps [simp del]

section \<open>The constraint system, as the steps use it\<close>

text \<open>
  Constraints and type variables are arena objects that the steps hold by pointer.
  \<^verbatim>\<open>Score\<close> and \<^verbatim>\<open>Solution\<close> are types of the solver that the header only passes
  on.
\<close>

type_synonym cptr = nat
type_synonym tyvar = nat
type_synonym decl = nat
type_synonym Score = nat
type_synonym Solution = nat
type_synonym ExprWeights = "(nat \<times> nat) list"

text \<open>
  \<^verbatim>\<open>swift/AST/Types.h\<close> is not part of the sources. The header asks of a type only
  whether it is a type variable (\<^verbatim>\<open>getAs<TypeVariableType>()\<close>) and whether it is
  equal to one (\<^verbatim>\<open>isEqual\<close>).
\<close>

datatype Type = TypeVariableType tyvar | OtherType nat

text \<open>An overload choice either names a declaration or is of a kind that has none.\<close>

datatype OverloadChoice = DeclChoice decl | OtherChoice nat

fun isDecl :: "OverloadChoice \<Rightarrow> bool" where
  "isDecl (DeclChoice d) = True"
| "isDecl (OtherChoice k) = False"

datatype ConstraintKind = Kind_Disjunction | Kind_BindOverload | Kind_Other

record Constraint =
  getKind_c :: ConstraintKind
  getFirstType :: Type
  getOverloadChoice :: OverloadChoice
  getNestedConstraints :: "cptr list"
  isDisabled :: bool

text \<open>An entry of the resolved-overload history; the list starts at the newest entry.\<close>

record ResolvedOverloadSetListItem =
  BoundType :: Type
  Choice :: OverloadChoice

text \<open>
  Modelled from the spec: \<^verbatim>\<open>ConstraintSystem::SolverScope\<close>, the solver-scope token of
  the external solver, which is declared in ConstraintSystem.h. It is a transaction: it
  records the mutable state of the constraint system when it is opened, and deleting it
  rewinds all of the changes made since.
\<close>

record SolverScope =
  savedTypeVariables :: "tyvar list"
  savedInactiveConstraints :: "cptr list"
  savedCG :: "cptr set"
  savedResolvedOverloadSets :: "ResolvedOverloadSetListItem list"
  savedScore :: Score

text \<open>
  The calls that change the constraint system or a constraint. The model keeps a log of
  them in \<open>Calls\<close>, in the order in which they are made, so that what a function
  calls, and in which order, can be stated; the log is not a member of the C++ class.
\<close>

datatype call =
    ScopeDeleted
  | ListErased cptr
  | ListInserted cptr
  | ListSpliced "cptr list"
  | GraphRemoved cptr
  | GraphAdded cptr
  | SetDisabled cptr
  | SetEnabled cptr
  | SolutionsFiltered bool

text \<open>
  \<^verbatim>\<open>CS.solverState\<close> points to the state of the solver, which exists as long as
  steps run; of its members the header uses these three.
\<close>

record SolverState =
  ExprWeights :: ExprWeights
  PartialSolutionScope :: "SolverScope option"
  NumDisjunctions :: nat

record ConstraintSystem =
  TypeVariables :: "tyvar list"
  InactiveConstraints :: "cptr list"
  CG :: "cptr set"
  resolvedOverloadSets :: "ResolvedOverloadSetListItem list"
  CurrentScore :: Score
  retainAllSolutions :: bool
  solverState :: SolverState
  Arena :: "cptr \<Rightarrow> Constraint"
  Calls :: "call list"

definition called :: "call \<Rightarrow> ConstraintSystem \<Rightarrow> ConstraintSystem" where
  "called c cs = cs\<lparr>Calls := Calls cs @ [c]\<rparr>"

definition SolverScope_open :: "ConstraintSystem \<Rightarrow> SolverScope" where
  "SolverScope_open cs =
     \<lparr>savedTypeVariables = TypeVariables cs,
      savedInactiveConstraints = InactiveConstraints cs,
      savedCG = CG cs,
      savedResolvedOverloadSets = resolvedOverloadSets cs,
      savedScore = CurrentScore cs\<rparr>"

definition SolverScope_delete :: "SolverScope \<Rightarrow> ConstraintSystem \<Rightarrow> ConstraintSystem" where
  "SolverScope_delete scope cs =
     called ScopeDeleted
       (cs\<lparr>TypeVariables := savedTypeVariables scope,
           InactiveConstraints := savedInactiveConstraints scope,
           CG := savedCG scope,
           resolvedOverloadSets := savedResolvedOverloadSets scope,
           CurrentScore := savedScore scope\<rparr>)"

definition getResolvedOverloads :: "ConstraintSystem \<Rightarrow> ResolvedOverloadSetListItem list" where
  "getResolvedOverloads cs = resolvedOverloadSets cs"

definition getCurrentScore :: "ConstraintSystem \<Rightarrow> Score" where
  "getCurrentScore cs = CurrentScore cs"

text \<open>
  \<^verbatim>\<open>SolverStep::filterSolutions\<close>. \<^verbatim>\<open>CS.filterSolutions\<close> is the external filter; it
  is a parameter here. The solution list is passed by reference and returned.
\<close>

definition filterSolutions ::
  "(ExprWeights \<Rightarrow> bool \<Rightarrow> Solution list \<Rightarrow> Solution list) \<Rightarrow>
    Solution list \<Rightarrow> bool \<Rightarrow> ConstraintSystem \<Rightarrow> Solution list \<times> ConstraintSystem" where
  "filterSolutions CS_filterSolutions solutions minimize cs =
     (if \<not> retainAllSolutions cs
      then (CS_filterSolutions (ExprWeights (solverState cs)) minimize solutions,
            called (SolutionsFiltered minimize) cs)
      else (solutions, cs))"

text \<open>
  A small constraint system for concrete evaluation: the constraints \<open>1\<close>, \<open>2\<close> and
  \<open>3\<close> are inactive, constraint \<open>2\<close> is a disjunction of the overload choices \<open>4\<close>
  and \<open>5\<close>, and nothing has been resolved yet.
\<close>

definition exampleArena :: "cptr \<Rightarrow> Constraint" where
  "exampleArena c =
     (if c = 2 then
        \<lparr>getKind_c = Kind_Disjunction, getFirstType = OtherType 0,
         getOverloadChoice = OtherChoice 0, getNestedConstraints = [4, 5],
         isDisabled = False\<rparr>
      else if c = 4 then
        \<lparr>getKind_c = Kind_BindOverload, getFirstType = TypeVariableType 1,
         getOverloadChoice = DeclChoice 10, getNestedConstraints = [],
         isDisabled = False\<rparr>
      else if c = 5 then
        \<lparr>getKind_c = Kind_BindOverload, getFirstType = TypeVariableType 1,
         getOverloadChoice = DeclChoice 11, getNestedConstraints = [],
         isDisabled = False\<rparr>
      else
        \<lparr>getKind_c = Kind_Other, getFirstType = OtherType 0,
         getOverloadChoice = OtherChoice 0, getNestedConstraints = [],
         isDisabled = False\<rparr>)"

definition exampleSystem :: ConstraintSystem where
  "exampleSystem =
     \<lparr>TypeVariables = [0, 1],
      InactiveConstraints = [1, 2, 3],
      CG = {1, 2, 3},
      resolvedOverloadSets = [],
      CurrentScore = 0,
      retainAllSolutions = False,
      solverState = \<lparr>ExprWeights = [], PartialSolutionScope = None, NumDisjunctions = 0\<rparr>,
      Arena = exampleArena,
      Calls = []\<rparr>"

section \<open>\<^verbatim>\<open>ComponentStep\<close>\<close>

text \<open>
  A data member that no initializer and no constructor sets has an indeterminate value.
\<close>

datatype 'a member = Indeterminate | Value 'a

record Scope =
  SolverScope_of :: SolverScope
  TypeVars_of :: "tyvar list"
  Constraints_of :: "cptr list"
  PrevPartialScope :: "SolverScope option"

record ComponentStep = SolverStep +
  Index :: nat
  IsSingleComponent :: "bool member"
  OriginalScore :: Score
  ComponentScope :: "Scope option"
  TypeVars :: "tyvar list"
  Constraints :: "cptr list"
  OrphanedConstraint :: "cptr option member"

text \<open>
  The constructor: its initializer list is \<^verbatim>\<open>SolverStep(cs, solutions), Index(index),
  OriginalScore(getCurrentScore())\<close> and its body is empty. \<^verbatim>\<open>State\<close> has the default
  member initializer \<^verbatim>\<open>Setup\<close>, the \<^verbatim>\<open>unique_ptr\<close> and the vectors are default
  constructed, and \<^verbatim>\<open>IsSingleComponent\<close> and \<^verbatim>\<open>OrphanedConstraint\<close> are left as they
  are.
\<close>

definition ComponentStep_ctor :: "ConstraintSystem \<Rightarrow> nat \<Rightarrow> bool \<Rightarrow> ComponentStep" where
  "ComponentStep_ctor cs index singleComponent =
     \<lparr>State = Setup,
      Index = index,
      IsSingleComponent = Indeterminate,
      OriginalScore = getCurrentScore cs,
      ComponentScope = None,
      TypeVars = [],
      Constraints = [],
      OrphanedConstraint = Indeterminate\<rparr>"

definition ComponentStep_create :: "ConstraintSystem \<Rightarrow> nat \<Rightarrow> bool \<Rightarrow> ComponentStep" where
  "ComponentStep_create cs index singleComponent = ComponentStep_ctor cs index singleComponent"






section \<open>\<^verbatim>\<open>DisjunctionStep\<close>\<close>

text \<open>
  What the C++ leaves undefined or stops at is an error value: a failed \<^verbatim>\<open>assert\<close>, an
  intrusive-list operation on a node or an iterator that is not in the list, and
  \<^verbatim>\<open>front()\<close> of an empty array.
\<close>

datatype error = AssertionFailed | NotInList | EmptyArray

text \<open>
  \<^verbatim>\<open>ConstraintList\<close> is an intrusive list: a constraint is in it at most once. An
  iterator is the node it points at, or \<open>None\<close> for \<^verbatim>\<open>end()\<close>. \<^verbatim>\<open>erase\<close> unlinks a
  node and returns the iterator to the node that followed it; \<^verbatim>\<open>insert\<close> links a node
  in front of the iterator's node.
\<close>

fun ilist_erase :: "cptr \<Rightarrow> cptr list \<Rightarrow> (cptr list \<times> cptr option) option" where
  "ilist_erase c [] = None"
| "ilist_erase c (x # xs) =
     (if x = c then Some (xs, case xs of [] \<Rightarrow> None | y # _ \<Rightarrow> Some y)
      else case ilist_erase c xs of
             None \<Rightarrow> None
           | Some (ys, following) \<Rightarrow> Some (x # ys, following))"

fun ilist_insert :: "cptr option \<Rightarrow> cptr \<Rightarrow> cptr list \<Rightarrow> cptr list option" where
  "ilist_insert None c xs = Some (xs @ [c])"
| "ilist_insert (Some n) c [] = None"
| "ilist_insert (Some n) c (x # xs) =
     (if x = n then Some (c # x # xs)
      else case ilist_insert (Some n) c xs of
             None \<Rightarrow> None
           | Some ys \<Rightarrow> Some (x # ys))"

text \<open>
  \<^verbatim>\<open>SolverStep::erase\<close> and \<^verbatim>\<open>SolverStep::restore\<close>. The constraint graph is external;
  of it the steps use \<^verbatim>\<open>removeConstraint\<close> and \<^verbatim>\<open>addConstraint\<close>, which take a
  constraint out of the set of constraints the graph holds and put it in.
\<close>

definition erase :: "cptr \<Rightarrow> ConstraintSystem \<Rightarrow> error + (cptr option \<times> ConstraintSystem)" where
  "erase constraint cs =
     (let cs1 = called (GraphRemoved constraint) (cs\<lparr>CG := CG cs - {constraint}\<rparr>)
      in case ilist_erase constraint (InactiveConstraints cs1) of
           None \<Rightarrow> Inl NotInList
         | Some (rest, following) \<Rightarrow>
             Inr (following,
                  called (ListErased constraint) (cs1\<lparr>InactiveConstraints := rest\<rparr>)))"

definition restore :: "cptr option \<Rightarrow> cptr \<Rightarrow> ConstraintSystem \<Rightarrow> error + ConstraintSystem" where
  "restore iterator constraint cs =
     (case ilist_insert iterator constraint (InactiveConstraints cs) of
        None \<Rightarrow> Inl NotInList
      | Some inserted \<Rightarrow>
          (let cs1 = called (ListInserted constraint) (cs\<lparr>InactiveConstraints := inserted\<rparr>)
           in Inr (called (GraphAdded constraint) (cs1\<lparr>CG := insert constraint (CG cs1)\<rparr>))))"

text \<open>\<^verbatim>\<open>Constraint::setDisabled\<close> and \<^verbatim>\<open>Constraint::setEnabled\<close> set the flag of one constraint.\<close>

definition setDisabled :: "cptr \<Rightarrow> ConstraintSystem \<Rightarrow> ConstraintSystem" where
  "setDisabled c cs =
     called (SetDisabled c) (cs\<lparr>Arena := (Arena cs)(c := (Arena cs c)\<lparr>isDisabled := True\<rparr>)\<rparr>)"

definition setEnabled :: "cptr \<Rightarrow> ConstraintSystem \<Rightarrow> ConstraintSystem" where
  "setEnabled c cs =
     called (SetEnabled c) (cs\<lparr>Arena := (Arena cs)(c := (Arena cs c)\<lparr>isDisabled := False\<rparr>)\<rparr>)"

text \<open>
  The step. \<^verbatim>\<open>ActiveChoice\<close> owns the solver scope of the choice being attempted, with
  the choice; the producer is built from the constraint system and the disjunction.
\<close>

record DisjunctionStep = SolverStep +
  Disjunction :: cptr
  DisabledChoices :: "cptr list"
  AfterDisjunction :: "cptr option"
  Producer :: cptr
  BestNonGenericScore :: "Score option"
  LastSolvedChoice :: "(cptr \<times> Score) option"
  ActiveChoice :: "(SolverScope \<times> cptr) option"

text \<open>
  \<^verbatim>\<open>pruneOverloadSet\<close>, innermost loop first. The inner loop runs over the nested
  constraints of the disjunction and disables each one whose overload choice is a
  declaration other than the representative's.
\<close>

fun disableChoices ::
  "decl \<Rightarrow> cptr list \<Rightarrow> DisjunctionStep \<times> ConstraintSystem \<Rightarrow> DisjunctionStep \<times> ConstraintSystem" where
  "disableChoices representative [] (st, cs) = (st, cs)"
| "disableChoices representative (constraint # rest) (st, cs) =
     (case getOverloadChoice (Arena cs constraint) of
        OtherChoice k \<Rightarrow> disableChoices representative rest (st, cs)
      | DeclChoice d \<Rightarrow>
          if d = representative then disableChoices representative rest (st, cs)
          else disableChoices representative rest
                 (st\<lparr>DisabledChoices := DisabledChoices st @ [constraint]\<rparr>,
                  setDisabled constraint cs))"

text \<open>
  The outer loop walks the resolved overloads from the newest one on: it skips the
  entries whose bound type is not the representative, returns at the first one that is
  when its choice is no declaration, and otherwise runs the inner loop and stops.
\<close>

fun scanResolved ::
  "tyvar \<Rightarrow> cptr list \<Rightarrow> ResolvedOverloadSetListItem list \<Rightarrow>
    DisjunctionStep \<times> ConstraintSystem \<Rightarrow> DisjunctionStep \<times> ConstraintSystem" where
  "scanResolved repr nested [] s = s"
| "scanResolved repr nested (resolved # previous) s =
     (if BoundType resolved \<noteq> TypeVariableType repr then scanResolved repr nested previous s
      else case Choice resolved of
             OtherChoice k \<Rightarrow> s
           | DeclChoice d \<Rightarrow> disableChoices d nested s)"

text \<open>
  \<open>getRepresentative\<close> is the union-find lookup of the type variables, which is
  external: it returns the representative of a type variable, or a null pointer.
\<close>

definition pruneOverloadSet ::
  "(tyvar \<Rightarrow> tyvar option) \<Rightarrow> cptr \<Rightarrow> DisjunctionStep \<times> ConstraintSystem \<Rightarrow>
    error + DisjunctionStep \<times> ConstraintSystem" where
  "pruneOverloadSet getRepresentative disjunction s =
     (case getNestedConstraints (Arena (snd s) disjunction) of
        [] \<Rightarrow> Inl EmptyArray
      | choice # _ \<Rightarrow>
          (case getFirstType (Arena (snd s) choice) of
             OtherType t \<Rightarrow> Inr s
           | TypeVariableType typeVar \<Rightarrow>
               (case getRepresentative typeVar of
                  None \<Rightarrow> Inr s
                | Some repr \<Rightarrow>
                    if repr = typeVar then Inr s
                    else Inr (scanResolved repr
                                (getNestedConstraints (Arena (snd s) disjunction))
                                (getResolvedOverloads (snd s)) s))))"

text \<open>
  The constructor: the member initializers erase the disjunction from the inactive
  constraints and keep the iterator that \<^verbatim>\<open>erase\<close> returns; the body asserts the kind
  of the constraint, prunes the overload set and counts the disjunction.
\<close>

definition DisjunctionStep_ctor ::
  "(tyvar \<Rightarrow> tyvar option) \<Rightarrow> cptr \<Rightarrow> ConstraintSystem \<Rightarrow>
    error + DisjunctionStep \<times> ConstraintSystem" where
  "DisjunctionStep_ctor getRepresentative disjunction cs =
     (case erase disjunction cs of
        Inl e \<Rightarrow> Inl e
      | Inr (following, cs1) \<Rightarrow>
          (let st = \<lparr>State = Setup, Disjunction = disjunction, DisabledChoices = [],
                     AfterDisjunction = following, Producer = disjunction,
                     BestNonGenericScore = None, LastSolvedChoice = None,
                     ActiveChoice = None\<rparr>
           in if getKind_c (Arena cs1 (Disjunction st)) \<noteq> Kind_Disjunction
              then Inl AssertionFailed
              else case pruneOverloadSet getRepresentative (Disjunction st) (st, cs1) of
                     Inl e \<Rightarrow> Inl e
                   | Inr (st2, cs2) \<Rightarrow>
                       Inr (st2,
                            cs2\<lparr>solverState := (solverState cs2)
                                  \<lparr>NumDisjunctions := NumDisjunctions (solverState cs2) + 1\<rparr>\<rparr>)))"

text \<open>
  The destructor: \<^verbatim>\<open>ActiveChoice.reset()\<close> deletes the solver scope that the optional
  holds, if it holds one; then \<^verbatim>\<open>restore(AfterDisjunction, Disjunction)\<close>; then the
  loop over \<^verbatim>\<open>DisabledChoices\<close>.
\<close>

definition ActiveChoice_reset :: "DisjunctionStep \<Rightarrow> ConstraintSystem \<Rightarrow> ConstraintSystem" where
  "ActiveChoice_reset st cs =
     (case ActiveChoice st of
        None \<Rightarrow> cs
      | Some (scope, choice) \<Rightarrow> SolverScope_delete scope cs)"

fun enableChoices :: "cptr list \<Rightarrow> ConstraintSystem \<Rightarrow> ConstraintSystem" where
  "enableChoices [] cs = cs"
| "enableChoices (choice # rest) cs = enableChoices rest (setEnabled choice cs)"

definition DisjunctionStep_dtor :: "DisjunctionStep \<Rightarrow> ConstraintSystem \<Rightarrow> error + ConstraintSystem" where
  "DisjunctionStep_dtor st cs =
     (let cs1 = ActiveChoice_reset st cs
      in case restore (AfterDisjunction st) (Disjunction st) cs1 of
           Inl e \<Rightarrow> Inl e
         | Inr cs2 \<Rightarrow> Inr (enableChoices (DisabledChoices st) cs2))"

text \<open>
  The claim's description of what pruning disables, for comparison with the code: the
  declaration that the representative is resolved to, if the first type of the first
  nested constraint is a type variable, its representative is another variable, and the
  newest entry of the history whose bound type is the representative has a declaration
  as its choice; and the nested constraints that name another declaration.
\<close>

definition representativeDecl ::
  "(tyvar \<Rightarrow> tyvar option) \<Rightarrow> ConstraintSystem \<Rightarrow> cptr \<Rightarrow> decl option" where
  "representativeDecl getRepresentative cs choice =
     (case getFirstType (Arena cs choice) of
        OtherType t \<Rightarrow> None
      | TypeVariableType typeVar \<Rightarrow>
          (case getRepresentative typeVar of
             None \<Rightarrow> None
           | Some repr \<Rightarrow>
               if repr = typeVar then None
               else (case find (\<lambda>r. BoundType r = TypeVariableType repr)
                                (resolvedOverloadSets cs) of
                       None \<Rightarrow> None
                     | Some r \<Rightarrow> (case Choice r of
                                    DeclChoice d \<Rightarrow> Some d
                                  | OtherChoice k \<Rightarrow> None))))"

definition namesOtherDecl :: "ConstraintSystem \<Rightarrow> decl \<Rightarrow> cptr \<Rightarrow> bool" where
  "namesOtherDecl cs d c =
     (case getOverloadChoice (Arena cs c) of
        DeclChoice d' \<Rightarrow> d' \<noteq> d
      | OtherChoice k \<Rightarrow> False)"

definition prunedChoices ::
  "(tyvar \<Rightarrow> tyvar option) \<Rightarrow> ConstraintSystem \<Rightarrow> cptr \<Rightarrow> cptr list" where
  "prunedChoices getRepresentative cs disjunction =
     (case getNestedConstraints (Arena cs disjunction) of
        [] \<Rightarrow> []
      | choice # _ \<Rightarrow>
          (case representativeDecl getRepresentative cs choice of
             None \<Rightarrow> []
           | Some d \<Rightarrow> filter (namesOtherDecl cs d)
                         (getNestedConstraints (Arena cs disjunction))))"

text \<open>
  Two histories for the example system, with the union-find state in which the type
  variable \<open>1\<close> has the representative \<open>2\<close>: in \<open>resolvedSystem\<close> the variable \<open>2\<close>
  is resolved to the declaration \<open>10\<close>; in \<open>shadowedSystem\<close> a newer entry for \<open>2\<close>
  has a choice that is no declaration.
\<close>

definition exampleRepresentative :: "tyvar \<Rightarrow> tyvar option" where
  "exampleRepresentative v = (if v = 1 then Some 2 else Some v)"

definition resolvedSystem :: ConstraintSystem where
  "resolvedSystem =
     exampleSystem\<lparr>resolvedOverloadSets :=
       [\<lparr>BoundType = TypeVariableType 2, Choice = DeclChoice 10\<rparr>]\<rparr>"

definition shadowedSystem :: ConstraintSystem where
  "shadowedSystem =
     exampleSystem\<lparr>resolvedOverloadSets :=
       [\<lparr>BoundType = TypeVariableType 2, Choice = OtherChoice 0\<rparr>,
        \<lparr>BoundType = TypeVariableType 2, Choice = DeclChoice 10\<rparr>]\<rparr>"

section \<open>Algorithms on sequences\<close>

text \<open>
  A sequence is the finite list of the elements that its generator yields; the generator
  is what is left of the list. \<^verbatim>\<open>next()\<close> returns the next element, or \<^verbatim>\<open>nil\<close> at the
  end, and advances the generator.
\<close>

definition generate :: "'a list \<Rightarrow> 'a list" where
  "generate rng = rng"

fun next_element :: "'a list \<Rightarrow> 'a option \<times> 'a list" where
  "next_element [] = (None, [])"
| "next_element (x # g) = (Some x, g)"

text \<open>
  \<^verbatim>\<open>minElement\<close>: \<^verbatim>\<open>var result = g.next()!\<close>, then the loop over the rest of the
  generator. The forced unwrap of \<^verbatim>\<open>nil\<close> traps: the function returns nothing, which is
  \<open>None\<close> here.
\<close>

fun minElement_loop :: "'a::linorder list \<Rightarrow> 'a \<Rightarrow> 'a" where
  "minElement_loop [] result = result"
| "minElement_loop (e # g) result = minElement_loop g (if e < result then e else result)"

definition minElement :: "'a::linorder list \<Rightarrow> 'a option" where
  "minElement rng =
     (let g = generate rng
      in case next_element g of
           (None, _) \<Rightarrow> None
         | (Some result, g') \<Rightarrow> Some (minElement_loop g' result))"

fun maxElement_loop :: "'a::linorder list \<Rightarrow> 'a \<Rightarrow> 'a" where
  "maxElement_loop [] result = result"
| "maxElement_loop (e # g) result = maxElement_loop g (if e > result then e else result)"

definition maxElement :: "'a::linorder list \<Rightarrow> 'a option" where
  "maxElement rng =
     (let g = generate rng
      in case next_element g of
           (None, _) \<Rightarrow> None
         | (Some result, g') \<Rightarrow> Some (maxElement_loop g' result))"

section \<open>Properties of step results\<close>

lemma popOrder_rev: "popOrder workList = rev workList"
proof (induction workList rule: rev_induct)
  case Nil
  show ?case by (subst popOrder.simps) (simp add: workList_pop_def)
next
  case (snoc x xs)
  have "popOrder (xs @ [x]) = x # popOrder xs"
    by (subst popOrder.simps) (simp add: workList_pop_def)
  with snoc show ?case by simp
qed

text \<open>
  C7. A step result built by any of the factories \<^verbatim>\<open>success\<close>, \<^verbatim>\<open>failure\<close> and
  \<^verbatim>\<open>unsolved\<close> has follow-up steps only when its kind is \<^verbatim>\<open>Unsolved\<close>: a result of
  kind \<^verbatim>\<open>Solved\<close> or \<^verbatim>\<open>Error\<close> carries none. The same holds for what
  \<^verbatim>\<open>SolverStep::done\<close> returns.
\<close>

theorem followups_only_when_unsolved:
  "(NextSteps (construct c) \<noteq> [] \<longrightarrow> getKind (construct c) = Unsolved)
   \<and> (getKind (construct c) \<in> {Solved, Error} \<longrightarrow> NextSteps (construct c) = [])
   \<and> NextSteps (snd (done_step isSuccess st)) = []
   \<and> getKind (snd (done_step isSuccess st)) = (if isSuccess then Solved else Error)"
  by (cases c)
     (simp_all add: getKind_def success_def failure_def unsolved_step_def unsolved_steps_def
        StepResult_kind_def StepResult_step_def StepResult_followup_def done_step_def)

theorem followups_only_when_unsolved_witness:
  "NextSteps (construct (CallUnsolvedStep 7)) \<noteq> []
   \<and> getKind (construct (CallUnsolvedStep 7)) = Unsolved
   \<and> getKind (construct CallFailure) \<in> {Solved, Error}
   \<and> NextSteps (construct CallFailure) = []"
  using followups_only_when_unsolved [of "CallUnsolvedStep 7" True SolverStep_init]
    followups_only_when_unsolved [of CallFailure True SolverStep_init]
  by (simp add: unsolved_step_def StepResult_step_def failure_def StepResult_kind_def
      getKind_def)

text \<open>
  C1. \<^verbatim>\<open>transitionTo\<close> applies every transition: a step that is \<^verbatim>\<open>Done\<close> and is
  told to move to \<^verbatim>\<open>Setup\<close>, a transition off the path, ends in state \<^verbatim>\<open>Setup\<close>.
  Nothing is rejected.
\<close>

theorem transitionTo_applies_off_path:
  "\<not> onPath Done Setup
   \<and> getState (transitionTo Setup (SolverStep_init\<lparr>State := Done\<rparr>)) = Setup
   \<and> \<not> onPath Setup Done
   \<and> getState (fst (done_step True SolverStep_init)) = Done"
  by (simp add: onPath_def transitionTo_def getState_def SolverStep_init_def done_step_def)

text \<open>
  C2, as stated, fails: after the follow-ups \<open>[10, 20]\<close> are transferred onto an empty
  work list, the step popped first is \<open>20\<close>, the follow-up at the last index, and not
  the follow-up \<open>10\<close> at index 0.
\<close>

theorem transfer_first_executed_counterexample:
  "NextSteps (unsolved_steps [10, 20]) ! 0 = 10
   \<and> map_option fst (workList_pop (transfer (unsolved_steps [10, 20]) [])) = Some 20
   \<and> popOrder (transfer (unsolved_steps [10, 20]) []) = [20, 10]"
  by (simp add: popOrder_rev transfer_def unsolved_steps_def StepResult_followup_def
      workList_pop_def)

text \<open>
  C2, amended. \<^verbatim>\<open>transfer\<close> appends the follow-ups at the back of the work list in
  their stored order and leaves the steps already there in place. On the LIFO work list
  the follow-ups are therefore popped in the reverse of their stored order, the last one
  first, and before every step that was on the list already.
\<close>

theorem transfer_pop_order:
  "transfer r workList = workList @ NextSteps r
   \<and> popOrder (transfer r workList) = rev (NextSteps r) @ popOrder workList"
  by (simp add: popOrder_rev transfer_def)

section \<open>Filtering, component steps and sequences\<close>

text \<open>
  C8. \<^verbatim>\<open>filterSolutions\<close> calls the external solution filter if and only if the
  constraint system does not retain all solutions: then the solutions are what the
  filter returns for the expression weights and \<^verbatim>\<open>minimize\<close>, and that one call is
  made. When \<^verbatim>\<open>retainAllSolutions\<close> is true, no call is made and the solution list is
  unchanged.
\<close>

theorem filterSolutions_iff_not_retain:
  "(Calls (snd (filterSolutions f solutions minimize cs)) \<noteq> Calls cs
      \<longleftrightarrow> \<not> retainAllSolutions cs)
   \<and> (\<not> retainAllSolutions cs \<longrightarrow>
        filterSolutions f solutions minimize cs =
          (f (ExprWeights (solverState cs)) minimize solutions,
           cs\<lparr>Calls := Calls cs @ [SolutionsFiltered minimize]\<rparr>))
   \<and> (retainAllSolutions cs \<longrightarrow>
        filterSolutions f solutions minimize cs = (solutions, cs))"
  by (simp add: filterSolutions_def called_def)

theorem filterSolutions_iff_not_retain_witness:
  "\<not> retainAllSolutions exampleSystem
   \<and> fst (filterSolutions (\<lambda>w m sols. take 1 sols) [7, 8] True exampleSystem) = [7]
   \<and> Calls (snd (filterSolutions (\<lambda>w m sols. take 1 sols) [7, 8] True exampleSystem))
       = [SolutionsFiltered True]
   \<and> retainAllSolutions (exampleSystem\<lparr>retainAllSolutions := True\<rparr>)
   \<and> filterSolutions (\<lambda>w m sols. take 1 sols) [7, 8] True
        (exampleSystem\<lparr>retainAllSolutions := True\<rparr>)
       = ([7, 8], exampleSystem\<lparr>retainAllSolutions := True\<rparr>)"
  using filterSolutions_iff_not_retain
          [of "\<lambda>w m sols. take 1 sols" "[7, 8]" True exampleSystem]
        filterSolutions_iff_not_retain
          [of "\<lambda>w m sols. take 1 sols" "[7, 8]" True
              "exampleSystem\<lparr>retainAllSolutions := True\<rparr>"]
  by (simp add: exampleSystem_def)

text \<open>
  C9. The constructor of \<^verbatim>\<open>ComponentStep\<close> does not use \<^verbatim>\<open>singleComponent\<close>: the
  step that \<^verbatim>\<open>create\<close> builds is the same whether the argument is true or false, and
  its \<^verbatim>\<open>IsSingleComponent\<close> is not initialized.
\<close>

theorem create_ignores_singleComponent:
  "ComponentStep_create cs index True = ComponentStep_create cs index False
   \<and> IsSingleComponent (ComponentStep_create cs index singleComponent) = Indeterminate
   \<and> Index (ComponentStep_create cs index singleComponent) = index
   \<and> OriginalScore (ComponentStep_create cs index singleComponent) = CurrentScore cs"
  by (simp add: ComponentStep_create_def ComponentStep_ctor_def getCurrentScore_def)

lemma minElement_loop_mem: "minElement_loop g result \<in> insert result (set g)"
  by (induction g arbitrary: result) auto

lemma minElement_loop_le_result: "minElement_loop g result \<le> result"
proof (induction g arbitrary: result)
  case Nil
  show ?case by simp
next
  case (Cons e g)
  have "minElement_loop g (if e < result then e else result) \<le> (if e < result then e else result)"
    by (rule Cons.IH)
  also have "\<dots> \<le> result" by auto
  finally show ?case by simp
qed

lemma minElement_loop_lower: "x \<in> set g \<Longrightarrow> minElement_loop g result \<le> x"
proof (induction g arbitrary: result)
  case Nil
  then show ?case by simp
next
  case (Cons e g)
  show ?case
  proof (cases "x = e")
    case True
    have "minElement_loop g (if e < result then e else result) \<le> (if e < result then e else result)"
      by (rule minElement_loop_le_result)
    also have "\<dots> \<le> e" by auto
    finally show ?thesis using True by simp
  next
    case False
    with Cons.prems have "x \<in> set g" by simp
    then show ?thesis using Cons.IH by simp
  qed
qed

lemma maxElement_loop_mem: "maxElement_loop g result \<in> insert result (set g)"
  by (induction g arbitrary: result) auto

lemma maxElement_loop_ge_result: "result \<le> maxElement_loop g result"
proof (induction g arbitrary: result)
  case Nil
  show ?case by simp
next
  case (Cons e g)
  have "result \<le> (if e > result then e else result)" by auto
  also have "\<dots> \<le> maxElement_loop g (if e > result then e else result)"
    by (rule Cons.IH)
  finally show ?case by simp
qed

lemma maxElement_loop_upper: "x \<in> set g \<Longrightarrow> x \<le> maxElement_loop g result"
proof (induction g arbitrary: result)
  case Nil
  then show ?case by simp
next
  case (Cons e g)
  show ?case
  proof (cases "x = e")
    case True
    have "e \<le> (if e > result then e else result)" by auto
    also have "\<dots> \<le> maxElement_loop g (if e > result then e else result)"
      by (rule maxElement_loop_ge_result)
    finally show ?thesis using True by simp
  next
    case False
    with Cons.prems have "x \<in> set g" by simp
    then show ?thesis using Cons.IH by simp
  qed
qed

text \<open>
  C10. \<^verbatim>\<open>minElement\<close> and \<^verbatim>\<open>maxElement\<close> are partial: on a sequence that yields no
  element the forced unwrap of the first \<^verbatim>\<open>next()\<close> fails. On a sequence that is not
  empty the failing branch is not taken: \<^verbatim>\<open>minElement\<close> returns an element of the
  sequence that no element is less than, and \<^verbatim>\<open>maxElement\<close> returns an element of the
  sequence that is less than no element.
\<close>

theorem minElement_maxElement_partial:
  "minElement ([] :: 'a::linorder list) = None
   \<and> maxElement ([] :: 'a list) = None
   \<and> ((rng :: 'a list) \<noteq> [] \<longrightarrow>
        (\<exists>m. minElement rng = Some m \<and> m \<in> set rng \<and> (\<forall>x \<in> set rng. \<not> x < m))
        \<and> (\<exists>m. maxElement rng = Some m \<and> m \<in> set rng \<and> (\<forall>x \<in> set rng. \<not> m < x)))"
proof (intro conjI impI)
  show "minElement ([] :: 'a list) = None"
    by (simp add: minElement_def generate_def)
  show "maxElement ([] :: 'a list) = None"
    by (simp add: maxElement_def generate_def)
next
  assume "rng \<noteq> []"
  then obtain first rest where rng: "rng = first # rest"
    by (cases rng) auto
  have "minElement rng = Some (minElement_loop rest first)"
    by (simp add: rng minElement_def generate_def)
  moreover have "minElement_loop rest first \<in> set rng"
    using minElement_loop_mem [of rest first] by (simp add: rng)
  moreover have "\<forall>x \<in> set rng. \<not> x < minElement_loop rest first"
    using minElement_loop_le_result [of rest first] minElement_loop_lower [of _ rest first]
    by (auto simp: rng not_less)
  ultimately show
    "\<exists>m. minElement rng = Some m \<and> m \<in> set rng \<and> (\<forall>x \<in> set rng. \<not> x < m)"
    by blast
  have "maxElement rng = Some (maxElement_loop rest first)"
    by (simp add: rng maxElement_def generate_def)
  moreover have "maxElement_loop rest first \<in> set rng"
    using maxElement_loop_mem [of rest first] by (simp add: rng)
  moreover have "\<forall>x \<in> set rng. \<not> maxElement_loop rest first < x"
    using maxElement_loop_ge_result [of first rest] maxElement_loop_upper [of _ rest first]
    by (auto simp: rng not_less)
  ultimately show
    "\<exists>m. maxElement rng = Some m \<and> m \<in> set rng \<and> (\<forall>x \<in> set rng. \<not> m < x)"
    by blast
qed

theorem minElement_maxElement_partial_witness:
  "[3, 1, 2 :: nat] \<noteq> []
   \<and> (\<exists>m. minElement [3, 1, 2 :: nat] = Some m \<and> m \<in> set [3, 1, 2]
          \<and> (\<forall>x \<in> set [3, 1, 2]. \<not> x < m))
   \<and> (\<exists>m. maxElement [3, 1, 2 :: nat] = Some m \<and> m \<in> set [3, 1, 2]
          \<and> (\<forall>x \<in> set [3, 1, 2]. \<not> m < x))"
  using minElement_maxElement_partial [of "[3, 1, 2 :: nat]"]
  by simp

section \<open>The disjunction step\<close>

lemma ilist_erase_following:
  "ilist_erase c xs = Some (ys, Some n) \<Longrightarrow> n \<in> set xs"
  by (induction xs arbitrary: ys) (auto split: if_splits option.splits list.splits)

lemma ilist_erase_insert:
  "distinct xs \<Longrightarrow> ilist_erase c xs = Some (ys, following) \<Longrightarrow>
     ilist_insert following c ys = Some xs"
proof (induction xs arbitrary: ys)
  case Nil
  then show ?case by simp
next
  case (Cons x xs)
  show ?case
  proof (cases "x = c")
    case True
    with Cons.prems show ?thesis by (cases xs) auto
  next
    case False
    with Cons.prems obtain zs where e: "ilist_erase c xs = Some (zs, following)" and ys: "ys = x # zs"
      by (auto split: option.splits)
    from Cons.prems have d: "distinct xs" by simp
    have ih: "ilist_insert following c zs = Some xs" using Cons.IH [OF d e] .
    show ?thesis
    proof (cases following)
      case None
      with ih ys show ?thesis by simp
    next
      case (Some n)
      with e have "n \<in> set xs" by (simp add: ilist_erase_following)
      with Cons.prems have "x \<noteq> n" by auto
      with ih ys Some show ?thesis by simp
    qed
  qed
qed

lemma ilist_erase_mem: "c \<in> set xs \<Longrightarrow> \<exists>ys following. ilist_erase c xs = Some (ys, following)"
  by (induction xs) auto

lemma enableChoices_Calls: "Calls (enableChoices choices cs) = Calls cs @ map SetEnabled choices"
  by (induction choices arbitrary: cs) (simp_all add: setEnabled_def called_def)

lemma enableChoices_Arena:
  "Arena (enableChoices choices cs) c =
     (if c \<in> set choices then (Arena cs c)\<lparr>isDisabled := False\<rparr> else Arena cs c)"
  by (induction choices arbitrary: cs) (auto simp: setEnabled_def called_def)

lemma enableChoices_lists:
  "InactiveConstraints (enableChoices choices cs) = InactiveConstraints cs"
  "CG (enableChoices choices cs) = CG cs"
  by (induction choices arbitrary: cs) (simp_all add: setEnabled_def called_def)

lemma ActiveChoice_reset_Calls:
  "Calls (ActiveChoice_reset st cs) =
     Calls cs @ (case ActiveChoice st of None \<Rightarrow> [] | Some a \<Rightarrow> [ScopeDeleted])"
  by (simp add: ActiveChoice_reset_def SolverScope_delete_def called_def split: option.splits)

lemma DisjunctionStep_dtor_actions:
  "DisjunctionStep_dtor st cs = Inr cs' \<longrightarrow>
     Calls cs' = Calls cs
        @ (case ActiveChoice st of None \<Rightarrow> [] | Some a \<Rightarrow> [ScopeDeleted])
        @ [ListInserted (Disjunction st), GraphAdded (Disjunction st)]
        @ map SetEnabled (DisabledChoices st)
     \<and> ilist_insert (AfterDisjunction st) (Disjunction st)
          (InactiveConstraints (ActiveChoice_reset st cs)) = Some (InactiveConstraints cs')
     \<and> CG cs' = insert (Disjunction st) (CG (ActiveChoice_reset st cs))
     \<and> (\<forall>c \<in> set (DisabledChoices st). \<not> isDisabled (Arena cs' c))"
proof
  assume a: "DisjunctionStep_dtor st cs = Inr cs'"
  define cs1 where "cs1 = ActiveChoice_reset st cs"
  from a obtain cs2 where r: "restore (AfterDisjunction st) (Disjunction st) cs1 = Inr cs2"
    and cs': "cs' = enableChoices (DisabledChoices st) cs2"
    by (auto simp: DisjunctionStep_dtor_def cs1_def Let_def split: sum.splits)
  from r obtain inserted where
    ins: "ilist_insert (AfterDisjunction st) (Disjunction st) (InactiveConstraints cs1) = Some inserted"
    and cs2: "cs2 = called (GraphAdded (Disjunction st))
                (called (ListInserted (Disjunction st)) (cs1\<lparr>InactiveConstraints := inserted\<rparr>)
                   \<lparr>CG := insert (Disjunction st) (CG cs1)\<rparr>)"
    by (auto simp: restore_def Let_def called_def split: option.splits)
  have "Calls cs2 = Calls cs1 @ [ListInserted (Disjunction st), GraphAdded (Disjunction st)]"
    by (simp add: cs2 called_def)
  then have c: "Calls cs' = Calls cs
        @ (case ActiveChoice st of None \<Rightarrow> [] | Some a \<Rightarrow> [ScopeDeleted])
        @ [ListInserted (Disjunction st), GraphAdded (Disjunction st)]
        @ map SetEnabled (DisabledChoices st)"
    by (simp add: cs' enableChoices_Calls cs1_def ActiveChoice_reset_Calls)
  have l: "InactiveConstraints cs' = inserted"
    by (simp add: cs' enableChoices_lists cs2 called_def)
  have g: "CG cs' = insert (Disjunction st) (CG cs1)"
    by (simp add: cs' enableChoices_lists cs2 called_def)
  have e: "\<forall>c \<in> set (DisabledChoices st). \<not> isDisabled (Arena cs' c)"
    by (simp add: cs' enableChoices_Arena)
  from c l g e ins show "Calls cs' = Calls cs
        @ (case ActiveChoice st of None \<Rightarrow> [] | Some a \<Rightarrow> [ScopeDeleted])
        @ [ListInserted (Disjunction st), GraphAdded (Disjunction st)]
        @ map SetEnabled (DisabledChoices st)
     \<and> ilist_insert (AfterDisjunction st) (Disjunction st)
          (InactiveConstraints (ActiveChoice_reset st cs)) = Some (InactiveConstraints cs')
     \<and> CG cs' = insert (Disjunction st) (CG (ActiveChoice_reset st cs))
     \<and> (\<forall>c \<in> set (DisabledChoices st). \<not> isDisabled (Arena cs' c))"
    by (simp add: cs1_def)
qed

lemma namesOtherDecl_setDisabled [simp]:
  "namesOtherDecl (setDisabled x cs) d = namesOtherDecl cs d"
  by (rule ext) (simp add: namesOtherDecl_def setDisabled_def called_def)

lemma Arena_setDisabled:
  "Arena (setDisabled x cs) = (Arena cs)(x := (Arena cs x)\<lparr>isDisabled := True\<rparr>)"
  by (simp add: setDisabled_def called_def)

lemma Calls_setDisabled: "Calls (setDisabled x cs) = Calls cs @ [SetDisabled x]"
  by (simp add: setDisabled_def called_def)

lemma disableChoices_step:
  "fst (disableChoices d l (st, cs)) =
     st\<lparr>DisabledChoices := DisabledChoices st @ filter (namesOtherDecl cs d) l\<rparr>"
proof (induction l arbitrary: st cs)
  case Nil
  show ?case by simp
next
  case (Cons x l)
  show ?case
    by (cases "getOverloadChoice (Arena cs x)") (simp_all add: Cons.IH namesOtherDecl_def [of cs d x])
qed

lemma disableChoices_Calls:
  "Calls (snd (disableChoices d l (st, cs))) =
     Calls cs @ map SetDisabled (filter (namesOtherDecl cs d) l)"
proof (induction l arbitrary: st cs)
  case Nil
  show ?case by simp
next
  case (Cons x l)
  show ?case
    by (cases "getOverloadChoice (Arena cs x)")
       (simp_all add: Cons.IH namesOtherDecl_def [of cs d x] Calls_setDisabled)
qed

lemma disableChoices_Arena:
  "Arena (snd (disableChoices d l (st, cs))) c =
     (if c \<in> set (filter (namesOtherDecl cs d) l)
      then (Arena cs c)\<lparr>isDisabled := True\<rparr> else Arena cs c)"
proof (induction l arbitrary: st cs)
  case Nil
  show ?case by simp
next
  case (Cons x l)
  show ?case
  proof (cases "namesOtherDecl cs d x")
    case True
    then obtain d' where "getOverloadChoice (Arena cs x) = DeclChoice d'" "d' \<noteq> d"
      by (auto simp: namesOtherDecl_def split: OverloadChoice.splits)
    then have "disableChoices d (x # l) (st, cs) =
        disableChoices d l (st\<lparr>DisabledChoices := DisabledChoices st @ [x]\<rparr>, setDisabled x cs)"
      by simp
    then show ?thesis using True
      by (auto simp: Cons.IH Arena_setDisabled)
  next
    case False
    then have "disableChoices d (x # l) (st, cs) = disableChoices d l (st, cs)"
      by (auto simp: namesOtherDecl_def split: OverloadChoice.splits)
    then show ?thesis using False by (simp add: Cons.IH)
  qed
qed

lemma disableChoices_frame:
  "snd (disableChoices d l (st, cs)) =
     cs\<lparr>Arena := Arena (snd (disableChoices d l (st, cs))),
        Calls := Calls (snd (disableChoices d l (st, cs)))\<rparr>"
proof (induction l arbitrary: st cs)
  case Nil
  show ?case by simp
next
  case (Cons x l)
  show ?case
  proof (cases "namesOtherDecl cs d x")
    case True
    then obtain d' where "getOverloadChoice (Arena cs x) = DeclChoice d'" "d' \<noteq> d"
      by (auto simp: namesOtherDecl_def split: OverloadChoice.splits)
    then have e: "disableChoices d (x # l) (st, cs) =
        disableChoices d l (st\<lparr>DisabledChoices := DisabledChoices st @ [x]\<rparr>, setDisabled x cs)"
      by simp
    show ?thesis
      unfolding e
      by (subst Cons.IH) (simp add: setDisabled_def called_def)
  next
    case False
    then have "disableChoices d (x # l) (st, cs) = disableChoices d l (st, cs)"
      by (auto simp: namesOtherDecl_def split: OverloadChoice.splits)
    then show ?thesis using Cons.IH by simp
  qed
qed

lemma scanResolved_find:
  "scanResolved repr nested history s =
     (case find (\<lambda>r. BoundType r = TypeVariableType repr) history of
        None \<Rightarrow> s
      | Some r \<Rightarrow> (case Choice r of
                     OtherChoice k \<Rightarrow> s
                   | DeclChoice d \<Rightarrow> disableChoices d nested s))"
  by (induction history) simp_all

lemma pruneOverloadSet_eq:
  "getNestedConstraints (Arena cs D) = choice # others \<Longrightarrow>
   pruneOverloadSet rep D (st, cs) =
     Inr (case representativeDecl rep cs choice of
            None \<Rightarrow> (st, cs)
          | Some d \<Rightarrow> disableChoices d (choice # others) (st, cs))"
  by (simp add: pruneOverloadSet_def representativeDecl_def scanResolved_find
      getResolvedOverloads_def
      split: Type.splits option.splits OverloadChoice.splits)

lemma prunedChoices_cong:
  "Arena cs1 = Arena cs \<Longrightarrow> resolvedOverloadSets cs1 = resolvedOverloadSets cs \<Longrightarrow>
     prunedChoices rep cs1 D = prunedChoices rep cs D"
proof -
  assume a: "Arena cs1 = Arena cs" and r: "resolvedOverloadSets cs1 = resolvedOverloadSets cs"
  have n: "namesOtherDecl cs1 = namesOtherDecl cs"
    by (intro ext) (simp add: namesOtherDecl_def a)
  have d: "representativeDecl rep cs1 = representativeDecl rep cs"
    unfolding representativeDecl_def a r by (rule refl)
  show ?thesis
    unfolding prunedChoices_def a n d by (rule refl)
qed

lemma pruneOverloadSet_result:
  assumes "pruneOverloadSet rep D (st, cs) = Inr (st', cs')"
  shows "st' = st\<lparr>DisabledChoices := DisabledChoices st @ prunedChoices rep cs D\<rparr>"
    and "Calls cs' = Calls cs @ map SetDisabled (prunedChoices rep cs D)"
    and "Arena cs' c = (if c \<in> set (prunedChoices rep cs D)
                        then (Arena cs c)\<lparr>isDisabled := True\<rparr> else Arena cs c)"
    and "cs' = cs\<lparr>Arena := Arena cs', Calls := Calls cs'\<rparr>"
proof -
  from assms obtain choice others where n: "getNestedConstraints (Arena cs D) = choice # others"
    by (cases "getNestedConstraints (Arena cs D)") (auto simp: pruneOverloadSet_def)
  have p: "(st', cs') = (case representativeDecl rep cs choice of
            None \<Rightarrow> (st, cs)
          | Some d \<Rightarrow> disableChoices d (choice # others) (st, cs))"
    using assms pruneOverloadSet_eq [OF n, of rep st] by simp
  show "st' = st\<lparr>DisabledChoices := DisabledChoices st @ prunedChoices rep cs D\<rparr>"
  proof (cases "representativeDecl rep cs choice")
    case None
    with p n show ?thesis by (simp add: prunedChoices_def)
  next
    case (Some d)
    with p have "st' = fst (disableChoices d (choice # others) (st, cs))" by (metis fst_conv option.simps(5))
    with Some n show ?thesis by (simp only: disableChoices_step prunedChoices_def list.case option.case)
  qed
  show "Calls cs' = Calls cs @ map SetDisabled (prunedChoices rep cs D)"
  proof (cases "representativeDecl rep cs choice")
    case None
    with p n show ?thesis by (simp add: prunedChoices_def)
  next
    case (Some d)
    with p have "cs' = snd (disableChoices d (choice # others) (st, cs))" by (metis snd_conv option.simps(5))
    with Some n show ?thesis by (simp only: disableChoices_Calls prunedChoices_def list.case option.case)
  qed
  show "Arena cs' c = (if c \<in> set (prunedChoices rep cs D)
                        then (Arena cs c)\<lparr>isDisabled := True\<rparr> else Arena cs c)"
  proof (cases "representativeDecl rep cs choice")
    case None
    with p n show ?thesis by (simp add: prunedChoices_def)
  next
    case (Some d)
    with p have "cs' = snd (disableChoices d (choice # others) (st, cs))" by (metis snd_conv option.simps(5))
    with Some n show ?thesis by (simp only: disableChoices_Arena prunedChoices_def list.case option.case)
  qed
  show "cs' = cs\<lparr>Arena := Arena cs', Calls := Calls cs'\<rparr>"
  proof (cases "representativeDecl rep cs choice")
    case None
    with p show ?thesis by simp
  next
    case (Some d)
    with p have "cs' = snd (disableChoices d (choice # others) (st, cs))" by (metis snd_conv option.simps(5))
    then show ?thesis using disableChoices_frame [of d "choice # others" st cs] by simp
  qed
qed

lemma pruneOverloadSet_total:
  "getNestedConstraints (Arena cs D) \<noteq> [] \<Longrightarrow> \<exists>st' cs'. pruneOverloadSet rep D (st, cs) = Inr (st', cs')"
proof -
  assume "getNestedConstraints (Arena cs D) \<noteq> []"
  then obtain choice others where n: "getNestedConstraints (Arena cs D) = choice # others"
    by (cases "getNestedConstraints (Arena cs D)") auto
  show ?thesis
    unfolding pruneOverloadSet_eq [OF n]
    by (metis surj_pair)
qed

lemma erase_result:
  assumes "erase D cs = Inr (following, cs1)"
  shows "\<exists>ys. ilist_erase D (InactiveConstraints cs) = Some (ys, following)
          \<and> cs1 = cs\<lparr>InactiveConstraints := ys, CG := CG cs - {D},
                     Calls := Calls cs @ [GraphRemoved D, ListErased D]\<rparr>"
  using assms by (auto simp: erase_def called_def Let_def split: option.splits)

lemma DisjunctionStep_ctor_result:
  assumes "DisjunctionStep_ctor rep D cs = Inr (st, cs')"
  shows "\<exists>ys following.
           ilist_erase D (InactiveConstraints cs) = Some (ys, following)
         \<and> st = \<lparr>State = Setup, Disjunction = D,
                  DisabledChoices = prunedChoices rep cs D,
                  AfterDisjunction = following, Producer = D,
                  BestNonGenericScore = None, LastSolvedChoice = None,
                  ActiveChoice = None\<rparr>
         \<and> InactiveConstraints cs' = ys
         \<and> CG cs' = CG cs - {D}
         \<and> Calls cs' = Calls cs @ [GraphRemoved D, ListErased D]
                         @ map SetDisabled (prunedChoices rep cs D)
         \<and> (\<forall>c. Arena cs' c = (if c \<in> set (prunedChoices rep cs D)
                                then (Arena cs c)\<lparr>isDisabled := True\<rparr> else Arena cs c))
         \<and> NumDisjunctions (solverState cs') = NumDisjunctions (solverState cs) + 1"
proof -
  from assms obtain following cs1 where e: "erase D cs = Inr (following, cs1)"
    by (auto simp: DisjunctionStep_ctor_def split: sum.splits)
  from erase_result [OF e] obtain ys where
    ys: "ilist_erase D (InactiveConstraints cs) = Some (ys, following)"
    and cs1: "cs1 = cs\<lparr>InactiveConstraints := ys, CG := CG cs - {D},
                     Calls := Calls cs @ [GraphRemoved D, ListErased D]\<rparr>"
    by blast
  define st0 where "st0 = \<lparr>State = Setup, Disjunction = D, DisabledChoices = [],
                     AfterDisjunction = following, Producer = D,
                     BestNonGenericScore = None, LastSolvedChoice = None,
                     ActiveChoice = None\<rparr>"
  from assms e obtain st2 cs2 where
    p: "pruneOverloadSet rep D (st0, cs1) = Inr (st2, cs2)"
    and st: "st = st2"
    and cs': "cs' = cs2\<lparr>solverState := (solverState cs2)
                      \<lparr>NumDisjunctions := NumDisjunctions (solverState cs2) + 1\<rparr>\<rparr>"
    by (auto simp: DisjunctionStep_ctor_def st0_def Let_def split: sum.splits if_splits)
  have pc: "prunedChoices rep cs1 D = prunedChoices rep cs D"
    by (rule prunedChoices_cong) (simp_all add: cs1)
  note r = pruneOverloadSet_result [OF p, unfolded pc]
  have fr: "cs2 = cs1\<lparr>Arena := Arena cs2, Calls := Calls cs2\<rparr>" by (rule r(4))
  have 1: "st = \<lparr>State = Setup, Disjunction = D,
                  DisabledChoices = prunedChoices rep cs D,
                  AfterDisjunction = following, Producer = D,
                  BestNonGenericScore = None, LastSolvedChoice = None,
                  ActiveChoice = None\<rparr>"
    using r(1) by (simp add: st st0_def)
  have 2: "InactiveConstraints cs' = ys" "CG cs' = CG cs - {D}"
    "NumDisjunctions (solverState cs') = NumDisjunctions (solverState cs) + 1"
    by (subst cs', subst fr, simp add: cs1)+
  have 3: "Calls cs' = Calls cs @ [GraphRemoved D, ListErased D]
                         @ map SetDisabled (prunedChoices rep cs D)"
    using r(2) by (simp add: cs' cs1)
  have 4: "\<forall>c. Arena cs' c = (if c \<in> set (prunedChoices rep cs D)
                                then (Arena cs c)\<lparr>isDisabled := True\<rparr> else Arena cs c)"
    using r(3) by (simp add: cs' cs1)
  from ys 1 2 3 4 show ?thesis by blast
qed

lemma DisjunctionStep_ctor_total:
  assumes "D \<in> set (InactiveConstraints cs)"
    and "getKind_c (Arena cs D) = Kind_Disjunction"
    and "getNestedConstraints (Arena cs D) \<noteq> []"
  shows "\<exists>st cs'. DisjunctionStep_ctor rep D cs = Inr (st, cs')"
proof -
  from ilist_erase_mem [OF assms(1)] obtain ys following where
    ys: "ilist_erase D (InactiveConstraints cs) = Some (ys, following)" by blast
  define cs1 where "cs1 = cs\<lparr>InactiveConstraints := ys, CG := CG cs - {D},
                     Calls := Calls cs @ [GraphRemoved D, ListErased D]\<rparr>"
  have e: "erase D cs = Inr (following, cs1)"
    by (simp add: erase_def called_def ys cs1_def)
  define st0 where "st0 = \<lparr>State = Setup, Disjunction = D, DisabledChoices = [],
                     AfterDisjunction = following, Producer = D,
                     BestNonGenericScore = None, LastSolvedChoice = None,
                     ActiveChoice = None\<rparr>"
  have "getNestedConstraints (Arena cs1 D) \<noteq> []" using assms(3) by (simp add: cs1_def)
  from pruneOverloadSet_total [OF this, of rep st0] obtain st2 cs2 where
    p: "pruneOverloadSet rep D (st0, cs1) = Inr (st2, cs2)" by blast
  have k: "getKind_c (Arena cs1 D) = Kind_Disjunction" using assms(2) by (simp add: cs1_def)
  have d: "Disjunction st0 = D" by (simp add: st0_def)
  show ?thesis
    using e p k by (simp add: DisjunctionStep_ctor_def st0_def [symmetric] d)
qed

lemma prunedChoices_resolvedSystem: "prunedChoices exampleRepresentative resolvedSystem 2 = [5]"
  by (simp add: prunedChoices_def representativeDecl_def namesOtherDecl_def resolvedSystem_def
      exampleSystem_def exampleArena_def exampleRepresentative_def)

text \<open>
  C5, as stated, fails. In \<open>shadowedSystem\<close> the first nested constraint \<open>4\<close> of the
  disjunction \<open>2\<close> has the type variable \<open>1\<close> as its first type, the representative
  of \<open>1\<close> is the other variable \<open>2\<close>, and \<open>2\<close> is the bound type of an entry of the
  history whose choice is the declaration \<open>10\<close>; the nested constraint \<open>5\<close> names
  the other declaration \<open>11\<close>. But a newer entry with the same bound type has a choice
  that is no declaration, the loop returns there, and the constructor disables nothing.
\<close>

theorem pruneOverloadSet_shadowed_counterexample:
  "getNestedConstraints (Arena shadowedSystem 2) = [4, 5]
   \<and> getFirstType (Arena shadowedSystem 4) = TypeVariableType 1
   \<and> exampleRepresentative 1 = Some 2
   \<and> resolvedOverloadSets shadowedSystem ! 1
        = \<lparr>BoundType = TypeVariableType 2, Choice = DeclChoice 10\<rparr>
   \<and> getOverloadChoice (Arena shadowedSystem 5) = DeclChoice 11
   \<and> map_sum id (DisabledChoices \<circ> fst)
        (DisjunctionStep_ctor exampleRepresentative 2 shadowedSystem) = Inr []
   \<and> map_sum id (Calls \<circ> snd)
        (DisjunctionStep_ctor exampleRepresentative 2 shadowedSystem)
        = Inr [GraphRemoved 2, ListErased 2]"
  by (simp add: DisjunctionStep_ctor_def erase_def called_def pruneOverloadSet_def
      getResolvedOverloads_def shadowedSystem_def exampleSystem_def exampleArena_def
      exampleRepresentative_def)

text \<open>
  C5, amended. The constructor runs \<^verbatim>\<open>pruneOverloadSet\<close> once: its list of disabled
  choices is exactly \<open>prunedChoices\<close>, each of them is disabled by one call, in the
  order of the nested constraints, and no other constraint changes. These are the nested
  constraints that name a declaration other than the representative's, when the first
  type of the first nested constraint is a type variable whose representative is another
  variable and the newest history entry whose bound type is the representative has a
  declaration as its choice; in every other case nothing is disabled. The constructor
  succeeds on a disjunction that is among the inactive constraints and has a nested
  constraint.
\<close>

theorem DisjunctionStep_ctor_prunes:
  "(DisjunctionStep_ctor rep D cs = Inr (st, cs') \<longrightarrow>
      DisabledChoices st = prunedChoices rep cs D
      \<and> Calls cs' = Calls cs @ [GraphRemoved D, ListErased D]
                      @ map SetDisabled (prunedChoices rep cs D)
      \<and> (\<forall>c. Arena cs' c = (if c \<in> set (prunedChoices rep cs D)
                             then (Arena cs c)\<lparr>isDisabled := True\<rparr> else Arena cs c)))
   \<and> (D \<in> set (InactiveConstraints cs) \<and> getKind_c (Arena cs D) = Kind_Disjunction
        \<and> getNestedConstraints (Arena cs D) \<noteq> [] \<longrightarrow>
        (\<exists>st cs'. DisjunctionStep_ctor rep D cs = Inr (st, cs')))"
proof (rule conjI)
  show "DisjunctionStep_ctor rep D cs = Inr (st, cs') \<longrightarrow>
      DisabledChoices st = prunedChoices rep cs D
      \<and> Calls cs' = Calls cs @ [GraphRemoved D, ListErased D]
                      @ map SetDisabled (prunedChoices rep cs D)
      \<and> (\<forall>c. Arena cs' c = (if c \<in> set (prunedChoices rep cs D)
                             then (Arena cs c)\<lparr>isDisabled := True\<rparr> else Arena cs c))"
  proof
    assume a: "DisjunctionStep_ctor rep D cs = Inr (st, cs')"
    from DisjunctionStep_ctor_result [OF a]
    show "DisabledChoices st = prunedChoices rep cs D
      \<and> Calls cs' = Calls cs @ [GraphRemoved D, ListErased D]
                      @ map SetDisabled (prunedChoices rep cs D)
      \<and> (\<forall>c. Arena cs' c = (if c \<in> set (prunedChoices rep cs D)
                             then (Arena cs c)\<lparr>isDisabled := True\<rparr> else Arena cs c))"
      by auto
  qed
next
  show "D \<in> set (InactiveConstraints cs) \<and> getKind_c (Arena cs D) = Kind_Disjunction
        \<and> getNestedConstraints (Arena cs D) \<noteq> [] \<longrightarrow>
        (\<exists>st cs'. DisjunctionStep_ctor rep D cs = Inr (st, cs'))"
    by (simp add: DisjunctionStep_ctor_total)
qed

text \<open>
  In \<open>resolvedSystem\<close> the representative \<open>2\<close> is resolved to the declaration \<open>10\<close>:
  the constructor disables the nested constraint \<open>5\<close>, which names \<open>11\<close>, and leaves
  \<open>4\<close>, which names \<open>10\<close>, enabled.
\<close>

theorem DisjunctionStep_ctor_prunes_witness:
  "2 \<in> set (InactiveConstraints resolvedSystem)
   \<and> getKind_c (Arena resolvedSystem 2) = Kind_Disjunction
   \<and> getNestedConstraints (Arena resolvedSystem 2) \<noteq> []
   \<and> (\<exists>st cs'. DisjunctionStep_ctor exampleRepresentative 2 resolvedSystem = Inr (st, cs')
         \<and> DisabledChoices st = [5]
         \<and> Calls cs' = [GraphRemoved 2, ListErased 2, SetDisabled 5]
         \<and> isDisabled (Arena cs' 5) \<and> \<not> isDisabled (Arena cs' 4))"
proof -
  have pre: "2 \<in> set (InactiveConstraints resolvedSystem)
      \<and> getKind_c (Arena resolvedSystem 2) = Kind_Disjunction
      \<and> getNestedConstraints (Arena resolvedSystem 2) \<noteq> []"
    by (simp add: resolvedSystem_def exampleSystem_def exampleArena_def)
  with DisjunctionStep_ctor_prunes [of exampleRepresentative 2 resolvedSystem]
  obtain st cs' where c: "DisjunctionStep_ctor exampleRepresentative 2 resolvedSystem = Inr (st, cs')"
    by blast
  with DisjunctionStep_ctor_prunes [of exampleRepresentative 2 resolvedSystem st cs']
  have "DisabledChoices st = [5]"
    "Calls cs' = [GraphRemoved 2, ListErased 2, SetDisabled 5]"
    "isDisabled (Arena cs' 5)" "\<not> isDisabled (Arena cs' 4)"
    by (simp_all add: prunedChoices_resolvedSystem)
       (simp_all add: resolvedSystem_def exampleSystem_def exampleArena_def)
  with pre c show ?thesis by blast
qed

text \<open>
  C4. The destructor of \<^verbatim>\<open>DisjunctionStep\<close> makes these calls and no others, in this
  order: it deletes the solver scope of the active choice, if there is one, which rewinds
  the last attempt; it inserts the disjunction into the inactive constraints, in front of
  the constraint that followed it when the constructor erased it, and adds it to the
  constraint graph; and it enables every choice in \<^verbatim>\<open>DisabledChoices\<close>, in order. The
  position is the one the disjunction was erased from: after construction, with or
  without an attempted choice whose scope was opened after the construction, the
  destructor gives back the list of inactive constraints as it was before the
  construction.
\<close>

theorem DisjunctionStep_dtor_order:
  "(DisjunctionStep_dtor st cs = Inr cs' \<longrightarrow>
     Calls cs' = Calls cs
        @ (case ActiveChoice st of None \<Rightarrow> [] | Some a \<Rightarrow> [ScopeDeleted])
        @ [ListInserted (Disjunction st), GraphAdded (Disjunction st)]
        @ map SetEnabled (DisabledChoices st)
     \<and> ilist_insert (AfterDisjunction st) (Disjunction st)
          (InactiveConstraints (ActiveChoice_reset st cs)) = Some (InactiveConstraints cs')
     \<and> CG cs' = insert (Disjunction st) (CG (ActiveChoice_reset st cs))
     \<and> (\<forall>c \<in> set (DisabledChoices st). \<not> isDisabled (Arena cs' c)))
   \<and> (distinct (InactiveConstraints cs0)
        \<and> DisjunctionStep_ctor rep D cs0 = Inr (st0, cs1) \<longrightarrow>
        (\<exists>cs2. DisjunctionStep_dtor st0 cs1 = Inr cs2
               \<and> InactiveConstraints cs2 = InactiveConstraints cs0)
        \<and> (\<exists>cs2. DisjunctionStep_dtor
                     (st0\<lparr>ActiveChoice := Some (SolverScope_open cs1, choice)\<rparr>) csm = Inr cs2
               \<and> InactiveConstraints cs2 = InactiveConstraints cs0))"
proof (intro conjI)
  show "DisjunctionStep_dtor st cs = Inr cs' \<longrightarrow>
     Calls cs' = Calls cs
        @ (case ActiveChoice st of None \<Rightarrow> [] | Some a \<Rightarrow> [ScopeDeleted])
        @ [ListInserted (Disjunction st), GraphAdded (Disjunction st)]
        @ map SetEnabled (DisabledChoices st)
     \<and> ilist_insert (AfterDisjunction st) (Disjunction st)
          (InactiveConstraints (ActiveChoice_reset st cs)) = Some (InactiveConstraints cs')
     \<and> CG cs' = insert (Disjunction st) (CG (ActiveChoice_reset st cs))
     \<and> (\<forall>c \<in> set (DisabledChoices st). \<not> isDisabled (Arena cs' c))"
    by (rule DisjunctionStep_dtor_actions)
next
  show "distinct (InactiveConstraints cs0)
        \<and> DisjunctionStep_ctor rep D cs0 = Inr (st0, cs1) \<longrightarrow>
        (\<exists>cs2. DisjunctionStep_dtor st0 cs1 = Inr cs2
               \<and> InactiveConstraints cs2 = InactiveConstraints cs0)
        \<and> (\<exists>cs2. DisjunctionStep_dtor
                     (st0\<lparr>ActiveChoice := Some (SolverScope_open cs1, choice)\<rparr>) csm = Inr cs2
               \<and> InactiveConstraints cs2 = InactiveConstraints cs0)"
  proof (intro impI, elim conjE)
    assume d: "distinct (InactiveConstraints cs0)"
      and c: "DisjunctionStep_ctor rep D cs0 = Inr (st0, cs1)"
    from DisjunctionStep_ctor_result [OF c] obtain ys following where
      e: "ilist_erase D (InactiveConstraints cs0) = Some (ys, following)"
      and st0: "Disjunction st0 = D" "AfterDisjunction st0 = following" "ActiveChoice st0 = None"
      and l: "InactiveConstraints cs1 = ys"
      by auto
    have i: "ilist_insert following D ys = Some (InactiveConstraints cs0)"
      using d e by (rule ilist_erase_insert)
    have 1: "\<exists>cs2. DisjunctionStep_dtor st0 cs1 = Inr cs2
               \<and> InactiveConstraints cs2 = InactiveConstraints cs0"
      by (simp add: DisjunctionStep_dtor_def ActiveChoice_reset_def restore_def st0 l i
          enableChoices_lists called_def)
    have 2: "\<exists>cs2. DisjunctionStep_dtor
                     (st0\<lparr>ActiveChoice := Some (SolverScope_open cs1, choice)\<rparr>) csm = Inr cs2
               \<and> InactiveConstraints cs2 = InactiveConstraints cs0"
      by (simp add: DisjunctionStep_dtor_def ActiveChoice_reset_def restore_def st0 l i
          enableChoices_lists called_def SolverScope_delete_def SolverScope_open_def)
    from 1 2 show "(\<exists>cs2. DisjunctionStep_dtor st0 cs1 = Inr cs2
               \<and> InactiveConstraints cs2 = InactiveConstraints cs0)
        \<and> (\<exists>cs2. DisjunctionStep_dtor
                     (st0\<lparr>ActiveChoice := Some (SolverScope_open cs1, choice)\<rparr>) csm = Inr cs2
               \<and> InactiveConstraints cs2 = InactiveConstraints cs0)"
      by (rule conjI)
  qed
qed

text \<open>
  On \<open>resolvedSystem\<close>: construction erases the disjunction \<open>2\<close> and disables the
  choice \<open>5\<close>; destruction puts \<open>2\<close> back between \<open>1\<close> and \<open>3\<close> and enables \<open>5\<close>.
\<close>

theorem DisjunctionStep_dtor_order_witness:
  "distinct (InactiveConstraints resolvedSystem)
   \<and> (\<exists>st0 cs1 cs2.
         DisjunctionStep_ctor exampleRepresentative 2 resolvedSystem = Inr (st0, cs1)
         \<and> DisjunctionStep_dtor st0 cs1 = Inr cs2
         \<and> InactiveConstraints cs2 = [1, 2, 3]
         \<and> Calls cs2 = [GraphRemoved 2, ListErased 2, SetDisabled 5,
                         ListInserted 2, GraphAdded 2, SetEnabled 5]
         \<and> \<not> isDisabled (Arena cs2 5))"
proof -
  have d: "distinct (InactiveConstraints resolvedSystem)"
    by (simp add: resolvedSystem_def exampleSystem_def)
  have "2 \<in> set (InactiveConstraints resolvedSystem)"
    "getKind_c (Arena resolvedSystem 2) = Kind_Disjunction"
    "getNestedConstraints (Arena resolvedSystem 2) \<noteq> []"
    by (simp_all add: resolvedSystem_def exampleSystem_def exampleArena_def)
  from DisjunctionStep_ctor_total [OF this, of exampleRepresentative]
  obtain st0 cs1 where
    c: "DisjunctionStep_ctor exampleRepresentative 2 resolvedSystem = Inr (st0, cs1)"
    by blast
  from DisjunctionStep_ctor_result [OF c] obtain following where
    st0_eq: "st0 = \<lparr>State = Setup, Disjunction = 2,
                  DisabledChoices = prunedChoices exampleRepresentative resolvedSystem 2,
                  AfterDisjunction = following, Producer = 2,
                  BestNonGenericScore = None, LastSolvedChoice = None,
                  ActiveChoice = None\<rparr>"
    and calls_eq: "Calls cs1 = Calls resolvedSystem @ [GraphRemoved 2, ListErased 2]
                         @ map SetDisabled (prunedChoices exampleRepresentative resolvedSystem 2)"
    by (elim exE conjE)
  have st0: "Disjunction st0 = 2" "DisabledChoices st0 = [5]" "ActiveChoice st0 = None"
    by (simp_all add: st0_eq prunedChoices_resolvedSystem)
  have "Calls resolvedSystem = []"
    by (simp add: resolvedSystem_def exampleSystem_def)
  then have calls: "Calls cs1 = [GraphRemoved 2, ListErased 2, SetDisabled 5]"
    by (simp add: calls_eq prunedChoices_resolvedSystem)
  have "\<exists>cs2. DisjunctionStep_dtor st0 cs1 = Inr cs2
               \<and> InactiveConstraints cs2 = InactiveConstraints resolvedSystem"
    using d c
      DisjunctionStep_dtor_order
        [where ?cs0.0 = resolvedSystem and rep = exampleRepresentative and D = 2
           and ?st0.0 = st0 and ?cs1.0 = cs1, THEN conjunct2]
    by simp
  then obtain cs2 where
    dt: "DisjunctionStep_dtor st0 cs1 = Inr cs2"
    and l: "InactiveConstraints cs2 = InactiveConstraints resolvedSystem"
    by (elim exE conjE)
  from dt DisjunctionStep_dtor_order [where st = st0 and cs = cs1 and cs' = cs2, THEN conjunct1]
  have "Calls cs2 = [GraphRemoved 2, ListErased 2, SetDisabled 5,
                     ListInserted 2, GraphAdded 2, SetEnabled 5]"
    "\<not> isDisabled (Arena cs2 5)"
    by (simp_all add: st0 calls)
  moreover have "InactiveConstraints cs2 = [1, 2, 3]"
    using l by (simp add: resolvedSystem_def exampleSystem_def)
  ultimately show ?thesis using d c dt by blast
qed

section \<open>The scope of a component step\<close>








end
